theory Spec2Isabelle
  imports Main
begin

section \<open>primeutil: a memoised prime sieve (src/index.js)\<close>

text \<open>
  The module keeps one array \<open>sieve\<close> (line 18) and five functions around it:
  \<open>getSieve\<close>, \<open>getLabeledSieve\<close>, \<open>listprimes\<close>, \<open>isPrime\<close> and \<open>nearestPrime\<close>.

  \<^bold>\<open>How the source text is read.\<close> The file is not accepted by a JavaScript parser as
  it stands, and some names it uses are bound nowhere. The embedding follows the text
  statement by statement and reads these places as follows, changing nothing else:
  \<^item> line 62, \<open>for ( var prime = 0, prime <= length, i++)\<close>: the three clauses of the
    loop header, \<open>var prime = 0; prime <= length; prime++\<close>. The loop variable is the one
    the body uses;
  \<^item> \<open>length\<close> (lines 62 and 75): the requested length \<open>max\<close>, which is also the
    length of \<open>sieve\<close> once line 43 has run; the comment on lines 68-70 uses the two
    names for the same number. It is a parameter \<open>len\<close> of the two loops;
  \<^item> line 111, \<open>fuction isPrime\<close>: \<open>function isPrime\<close>;
  \<^item> line 108, \<open>getSieve(num)\<close> inside \<open>listprimes(max)\<close>: the function's parameter;
  \<^item> line 20 exports \<open>listPrimes\<close>, the function declared is \<open>listprimes\<close>: the
    exported \<open>listPrimes\<close> is that function.

  Numbers are mathematical integers (\<open>int\<close>); the bounds of \<open>nearestPrime\<close> may also be
  \<open>-Infinity\<close> and \<open>Infinity\<close>, and its result may be \<open>NaN\<close>. Limits of the engine
  (memory, string length, the argument count of the spread call on line 43) are not part of
  the model; the one limit of the language itself, the \<open>RangeError\<close> of \<open>new Array(n)\<close>
  for \<open>n > 2^32 - 1\<close>, is.
\<close>

subsection \<open>Values, arrays and the heap\<close>

text \<open>
  An array of the module holds booleans; \<open>None\<close> is an element that is absent (a hole),
  which reads as \<open>undefined\<close>. Arrays live in a heap and are handed around by reference:
  \<open>sieve\<close> is the array at address \<open>sieve_ref\<close>, and every \<open>slice\<close> allocates a new one.
\<close>

type_synonym jsarray = "bool option list"
type_synonym ref = nat
type_synonym heap = "jsarray list"

datatype error = RangeError

type_synonym 'a result = "error + 'a"

text \<open>A call either never returns (\<open>None\<close>), or returns or throws in a new heap.\<close>

type_synonym 'a call = "heap \<Rightarrow> ('a result \<times> heap) option"

datatype jsnum = NaN | Num int

datatype bound = NegInfinity | Finite int | Infinity

definition sieve_ref :: ref where
  "sieve_ref = 0"

text \<open>Line 18, \<open>const sieve = []\<close>: the heap when the module has been loaded.\<close>

definition loaded :: heap where
  "loaded = [[]]"

definition alloc :: "jsarray \<Rightarrow> heap \<Rightarrow> ref \<times> heap" where
  "alloc a h = (length h, h @ [a])"

text \<open>\<open>a[i]\<close>: \<open>undefined\<close> outside the array.\<close>

definition get :: "jsarray \<Rightarrow> int \<Rightarrow> bool option" where
  "get a i = (if 0 \<le> i \<and> i < int (length a) then a ! nat i else None)"

text \<open>
  \<open>a[i] = v\<close>: beyond the end the array grows and the gap is holes; a negative \<open>i\<close> sets a
  property and leaves the elements alone.
\<close>

definition put :: "jsarray \<Rightarrow> int \<Rightarrow> bool \<Rightarrow> jsarray" where
  "put a i v =
     (if i < 0 then a
      else if i < int (length a) then a[nat i := Some v]
      else a @ replicate (nat i - length a) None @ [Some v])"

text \<open>\<open>a.slice(0, e)\<close>: a negative \<open>e\<close> counts from the end.\<close>

definition slice :: "jsarray \<Rightarrow> int \<Rightarrow> jsarray" where
  "slice a e =
     (let n = int (length a);
          final = (if e < 0 then max (n + e) 0 else min e n)
      in take (nat final) a)"

subsection \<open>Lines 42-43: the new elements\<close>

text \<open>
  \<open>new Array(k).join(',').split(',').map(() => true)\<close>: \<open>k\<close> holes, each printed as the
  empty string, joined by commas, split at the commas again, every piece replaced by
  \<open>true\<close>.
\<close>

fun join :: "string \<Rightarrow> string list \<Rightarrow> string" where
  "join sep [] = []"
| "join sep [x] = x"
| "join sep (x # y # ys) = x @ sep @ join sep (y # ys)"

fun split :: "char \<Rightarrow> string \<Rightarrow> string list" where
  "split c [] = [[]]"
| "split c (x # xs) =
     (if x = c then [] # split c xs
      else (case split c xs of [] \<Rightarrow> [[x]] | w # ws \<Rightarrow> (x # w) # ws))"

definition freshSieve :: "nat \<Rightarrow> jsarray" where
  "freshSieve k = map (\<lambda>_. Some True) (split (CHR '','') (join '','' (replicate k [])))"

subsection \<open>Lines 62-81: the two loops\<close>

text \<open>
  The inner loop, lines 73-79. Its step is \<open>prime\<close>, so it is not known to end: the
  result \<open>None\<close> is a loop that runs forever.
\<close>

partial_function (option) mark :: "int \<Rightarrow> int \<Rightarrow> int \<Rightarrow> jsarray \<Rightarrow> jsarray option" where
  "mark len prime multiple sieve =
     (if multiple < len then mark len prime (multiple + prime) (put sieve multiple False)
      else Some sieve)"

text \<open>The outer loop, lines 62-81, from \<open>prime\<close> on.\<close>

partial_function (option) sift :: "int \<Rightarrow> int \<Rightarrow> jsarray \<Rightarrow> jsarray option" where
  "sift len prime sieve =
     (if prime \<le> len then
        (if get sieve prime = Some True then
           (case mark len prime (prime * prime) sieve of
              None \<Rightarrow> None
            | Some sieve' \<Rightarrow> sift len (prime + 1) sieve')
         else sift len (prime + 1) sieve)
      else Some sieve)"

subsection \<open>getSieve (lines 22-84)\<close>

definition getSieve :: "int \<Rightarrow> ref call" where
  "getSieve mx h =
     (let sieve = h ! sieve_ref in
      if int (length sieve) \<ge> mx then
        (case alloc (slice sieve mx) h of (r, h') \<Rightarrow> Some (Inr r, h'))
      else if mx - int (length sieve) > 4294967295 then Some (Inl RangeError, h)
      else
        (let sieve1 = sieve @ freshSieve (nat (mx - int (length sieve))) in
         case sift mx 0 sieve1 of
           None \<Rightarrow> None
         | Some sieve2 \<Rightarrow>
             (case alloc (slice sieve2 mx) (h[sieve_ref := sieve2]) of
                (r, h') \<Rightarrow> Some (Inr r, h'))))"

subsection \<open>getLabeledSieve (lines 87-98)\<close>

text \<open>
  \<open>.map((each, index) => ({[index]: each}))\<close>: the object with the one key \<open>index\<close> is
  the pair of the key and its value; \<open>map\<close> leaves a hole where the array has one.
\<close>

definition labelled :: "jsarray \<Rightarrow> (nat \<times> bool) option list" where
  "labelled a = map (\<lambda>(index, each). map_option (\<lambda>b. (index, b)) each) (enumerate 0 a)"

definition getLabeledSieve :: "int \<Rightarrow> (nat \<times> bool) option list call" where
  "getLabeledSieve num h =
     (case getSieve num h of
        None \<Rightarrow> None
      | Some (Inl e, h') \<Rightarrow> Some (Inl e, h')
      | Some (Inr r, h') \<Rightarrow> Some (Inr (labelled (h' ! r)), h'))"

subsection \<open>listprimes (lines 100-109)\<close>

text \<open>
  \<open>each && index\<close> is \<open>false\<close> or the index; \<open>.filter(Boolean)\<close> keeps the values that
  are truthy, so it drops \<open>false\<close> and the index \<open>0\<close>, and skips holes.
\<close>

datatype entry = EFalse | EIndex nat

definition andIndex :: "bool \<Rightarrow> nat \<Rightarrow> entry" where
  "andIndex each index = (if each then EIndex index else EFalse)"

fun truthyEntry :: "entry option \<Rightarrow> bool" where
  "truthyEntry None = False"
| "truthyEntry (Some EFalse) = False"
| "truthyEntry (Some (EIndex i)) = (i \<noteq> 0)"

fun indexOf :: "entry option \<Rightarrow> nat" where
  "indexOf (Some (EIndex i)) = i"
| "indexOf _ = 0"

definition primesOf :: "jsarray \<Rightarrow> nat list" where
  "primesOf a =
     map indexOf
       (filter truthyEntry
          (map (\<lambda>(index, each). map_option (\<lambda>b. andIndex b index) each) (enumerate 0 a)))"

definition listprimes :: "int \<Rightarrow> nat list call" where
  "listprimes num h =
     (case getSieve num h of
        None \<Rightarrow> None
      | Some (Inl e, h') \<Rightarrow> Some (Inl e, h')
      | Some (Inr r, h') \<Rightarrow> Some (Inr (primesOf (h' ! r)), h'))"

subsection \<open>isPrime (lines 111-122)\<close>

text \<open>The result is \<open>Some True\<close>, \<open>Some False\<close> or \<open>None\<close> for \<open>undefined\<close>.\<close>

definition isPrime :: "int \<Rightarrow> bool option call" where
  "isPrime num h =
     (if int (length (h ! sieve_ref)) \<ge> num then Some (Inr (get (h ! sieve_ref) num), h)
      else
        (case getSieve num h of
           None \<Rightarrow> None
         | Some (Inl e, h') \<Rightarrow> Some (Inl e, h')
         | Some (Inr r, h') \<Rightarrow> Some (Inr (get (h' ! r) num), h')))"

subsection \<open>nearestPrime (lines 124-143)\<close>

text \<open>Comparisons of a number with a bound, and the truth value of a number.\<close>

fun less_bound :: "int \<Rightarrow> bound \<Rightarrow> bool" where
  "less_bound n NegInfinity = False"
| "less_bound n (Finite m) = (n < m)"
| "less_bound n Infinity = True"

fun greater_bound :: "int \<Rightarrow> bound \<Rightarrow> bool" where
  "greater_bound n NegInfinity = True"
| "greater_bound n (Finite m) = (n > m)"
| "greater_bound n Infinity = False"

fun num_less_bound :: "jsnum \<Rightarrow> bound \<Rightarrow> bool" where
  "num_less_bound NaN b = False"
| "num_less_bound (Num n) b = less_bound n b"

fun truthy :: "jsnum \<Rightarrow> bool" where
  "truthy NaN = False"
| "truthy (Num n) = (n \<noteq> 0)"

text \<open>
  Line 130: \<open>while(nextPrime < max && isPrime(nextPrime) == false){ nextPrime++ }\<close>.
  \<open>undefined == false\<close> is false, so the loop goes on only when \<open>isPrime\<close> returns
  \<open>false\<close> itself.
\<close>

partial_function (option) scanUp :: "bound \<Rightarrow> int \<Rightarrow> heap \<Rightarrow> (int result \<times> heap) option" where
  "scanUp mx nextPrime h =
     (if less_bound nextPrime mx then
        (case isPrime nextPrime h of
           None \<Rightarrow> None
         | Some (Inl e, h') \<Rightarrow> Some (Inl e, h')
         | Some (Inr b, h') \<Rightarrow>
             if b = Some False then scanUp mx (nextPrime + 1) h'
             else Some (Inr nextPrime, h'))
      else Some (Inr nextPrime, h))"

text \<open>Line 131: \<open>while(prevPrime > min && isPrime(prevPrime) == false){ prevPrime-- }\<close>.\<close>

partial_function (option) scanDown :: "bound \<Rightarrow> int \<Rightarrow> heap \<Rightarrow> (int result \<times> heap) option" where
  "scanDown mn prevPrime h =
     (if greater_bound prevPrime mn then
        (case isPrime prevPrime h of
           None \<Rightarrow> None
         | Some (Inl e, h') \<Rightarrow> Some (Inl e, h')
         | Some (Inr b, h') \<Rightarrow>
             if b = Some False then scanDown mn (prevPrime - 1) h'
             else Some (Inr prevPrime, h'))
      else Some (Inr prevPrime, h))"

text \<open>
  Lines 138-142, the chain of conditionals. \<open>nextPrime\<close> is a number here; \<open>prevPrime\<close>
  may be \<open>NaN\<close>, and a comparison with \<open>NaN\<close> is false.
\<close>

definition pick :: "int \<Rightarrow> int \<Rightarrow> jsnum \<Rightarrow> jsnum" where
  "pick num nextPrime prevPrime =
     (if truthy prevPrime \<and> \<not> truthy (Num nextPrime) then prevPrime
      else if truthy (Num nextPrime) \<and> \<not> truthy prevPrime then Num nextPrime
      else if \<not> truthy (Num nextPrime) \<and> \<not> truthy prevPrime then NaN
      else (case prevPrime of
              NaN \<Rightarrow> prevPrime
            | Num p \<Rightarrow> if nextPrime - num > num - p then Num nextPrime else prevPrime))"

text \<open>Lines 135-136 both assign to \<open>prevPrime\<close>.\<close>

definition nullOut :: "bound \<Rightarrow> bound \<Rightarrow> int \<Rightarrow> int \<Rightarrow> jsnum" where
  "nullOut mn mx nextPrime prevPrime =
     (let prevPrime1 = (if greater_bound nextPrime mx then NaN else Num prevPrime)
      in if num_less_bound prevPrime1 mn then NaN else prevPrime1)"

definition nearestPrime :: "int \<Rightarrow> bound \<Rightarrow> bound \<Rightarrow> jsnum call" where
  "nearestPrime num mn mx h =
     (case isPrime num h of
        None \<Rightarrow> None
      | Some (Inl e, h1) \<Rightarrow> Some (Inl e, h1)
      | Some (Inr b, h1) \<Rightarrow>
          if b = Some True then Some (Inr (Num num), h1)
          else
            (case scanUp mx num h1 of
               None \<Rightarrow> None
             | Some (Inl e, h2) \<Rightarrow> Some (Inl e, h2)
             | Some (Inr nextPrime, h2) \<Rightarrow>
                 (case scanDown mn num h2 of
                    None \<Rightarrow> None
                  | Some (Inl e, h3) \<Rightarrow> Some (Inl e, h3)
                  | Some (Inr prevPrime, h3) \<Rightarrow>
                      Some (Inr (pick num nextPrime (nullOut mn mx nextPrime prevPrime)), h3))))"

subsection \<open>Line 20: the exported names\<close>

definition exports :: "string list" where
  "exports = [''getSieve'', ''getLabeledSieve'', ''listPrimes'', ''nearestPrime'']"

definition listPrimes :: "int \<Rightarrow> nat list call" where
  "listPrimes = listprimes"

subsection \<open>Table states\<close>

text \<open>The heaps in which the table is still the empty array of line 18.\<close>

definition empty_table :: "heap \<Rightarrow> bool" where
  "empty_table h = (h \<noteq> [] \<and> h ! sieve_ref = [])"

text \<open>
  The heaps a program can reach: it loads the module, calls the exported functions, and
  writes to the arrays it was handed (any array but \<open>sieve\<close>, which is not exported).
  A call that never returns leads nowhere.
\<close>

inductive reachable :: "heap \<Rightarrow> bool" where
  load: "reachable loaded"
| call_getSieve: "reachable h \<Longrightarrow> getSieve n h = Some (v, h') \<Longrightarrow> reachable h'"
| call_getLabeledSieve: "reachable h \<Longrightarrow> getLabeledSieve n h = Some (w, h') \<Longrightarrow> reachable h'"
| call_listPrimes: "reachable h \<Longrightarrow> listPrimes n h = Some (ps, h') \<Longrightarrow> reachable h'"
| call_nearestPrime: "reachable h \<Longrightarrow> nearestPrime n mn mx h = Some (p, h') \<Longrightarrow> reachable h'"
| caller_write: "reachable h \<Longrightarrow> r \<noteq> sieve_ref \<Longrightarrow> r < length h \<Longrightarrow> reachable (h[r := a])"

text \<open>
  Two heaps with the same table and as many arrays; what a caller can see of a call: the
  outcome, the array a returned reference points to, and the table afterwards.
\<close>

definition same_table :: "heap \<Rightarrow> heap \<Rightarrow> bool" where
  "same_table h1 h2 = (h1 \<noteq> [] \<and> length h1 = length h2 \<and> h1 ! sieve_ref = h2 ! sieve_ref)"

definition arrayView :: "ref result \<times> heap \<Rightarrow> jsarray result \<times> jsarray" where
  "arrayView c = (case c of (v, h) \<Rightarrow> (map_sum id (\<lambda>r. h ! r) v, h ! sieve_ref))"

definition tableView :: "'a result \<times> heap \<Rightarrow> 'a result \<times> jsarray" where
  "tableView c = (case c of (v, h) \<Rightarrow> (v, h ! sieve_ref))"

text \<open>
  Three tables for examples, filled as a correct sieve would fill them: the primes below
  4, below 6 and below 20. No run of the module produces them (see \<open>reachable_empty_table\<close> below).
\<close>

definition table4 :: jsarray where
  "table4 = map Some [False, False, True, True]"

definition table6 :: jsarray where
  "table6 = map Some [False, False, True, True, False, True]"

definition table20 :: jsarray where
  "table20 = map Some
     [False, False, True, True, False, True, False, True, False, False,
      False, True, False, True, False, False, False, True, False, True]"

declare mark.simps [code] sift.simps [code] scanUp.simps [code] scanDown.simps [code]

section \<open>Properties\<close>

subsection \<open>Arrays\<close>

lemma slice_take: "0 \<le> e \<Longrightarrow> slice a e = take (nat e) a"
  by (simp add: slice_def Let_def min_def)

lemma length_slice: "0 \<le> e \<Longrightarrow> int (length (slice a e)) \<le> e"
  by (simp add: slice_take)

lemma get_slice_end: "0 \<le> e \<Longrightarrow> get (slice a e) e = None"
  using length_slice[of e a] by (simp add: get_def)

lemma nth_alloc: "(h[i := x] @ [a]) ! length h = a" "(h @ [a]) ! length h = a"
  by (simp_all add: nth_append)

text \<open>The idiom of line 42 gives \<open>k\<close> times \<open>true\<close>, for every \<open>k\<close> the code uses.\<close>

lemma split_commas: "split (CHR '','') (replicate n (CHR '','')) = replicate (Suc n) []"
  by (induction n) simp_all

lemma join_empties: "join '','' ([] # replicate n []) = replicate n (CHR '','')"
  by (induction n) simp_all

lemma freshSieve_trues: "0 < k \<Longrightarrow> freshSieve k = replicate k (Some True)"
  by (cases k) (simp_all add: freshSieve_def join_empties split_commas)

subsection \<open>The sieve loop on a new table\<close>

text \<open>
  The inner loop cannot return when its step \<open>prime\<close> is 0 and its condition holds:
  \<open>multiple\<close> stays where it is.
\<close>

lemma mark_returns:
  assumes "mark len prime multiple sieve = Some y"
  shows "\<not> (prime = 0 \<and> multiple < len)"
  by (rule mark.raw_induct
        [where P="\<lambda>len prime multiple sieve y. \<not> (prime = 0 \<and> multiple < len)", OF _ assms])
     (auto split: if_splits)

lemma mark_zero: "multiple < len \<Longrightarrow> mark len 0 multiple sieve = None"
  using mark_returns[of len 0 multiple sieve] by (cases "mark len 0 multiple sieve") auto

text \<open>The outer loop starts at \<open>prime = 0\<close>; a new table has \<open>true\<close> there.\<close>

lemma sift_zero: "0 < len \<Longrightarrow> get sieve 0 = Some True \<Longrightarrow> sift len 0 sieve = None"
  by (subst sift.simps) (simp add: mark_zero)

text \<open>
  At \<open>prime = 1\<close> the inner loop starts at 1 with step 1 and strikes every index from 1
  on, the primes with the rest.
\<close>

lemma sift_one_strikes_all:
  "sift 4 1 (map Some [False, True, True, True]) = Some (map Some [False, False, False, False])"
  by code_simp

text \<open>Every function of the module, called while the table is empty.\<close>

lemma getSieve_empty_table:
  assumes "empty_table h"
  shows "getSieve mx h =
     (if mx \<le> 0 then Some (Inr (length h), h @ [[]])
      else if mx \<le> 4294967295 then None
      else Some (Inl RangeError, h))"
  using assms
  by (simp add: getSieve_def empty_table_def Let_def alloc_def slice_def freshSieve_trues
      sift_zero get_def)

lemma isPrime_empty_table:
  assumes "empty_table h"
  shows "isPrime num h =
     (if num \<le> 0 then Some (Inr None, h)
      else if num \<le> 4294967295 then None
      else Some (Inl RangeError, h))"
  using assms by (auto simp: isPrime_def getSieve_empty_table empty_table_def get_def)

lemma scanUp_empty_table:
  assumes "empty_table h"
  shows "scanUp mx num h =
     (if less_bound num mx then
        (if num \<le> 0 then Some (Inr num, h)
         else if num \<le> 4294967295 then None
         else Some (Inl RangeError, h))
      else Some (Inr num, h))"
  using assms by (subst scanUp.simps) (simp add: isPrime_empty_table)

lemma scanDown_empty_table:
  assumes "empty_table h"
  shows "scanDown mn num h =
     (if greater_bound num mn then
        (if num \<le> 0 then Some (Inr num, h)
         else if num \<le> 4294967295 then None
         else Some (Inl RangeError, h))
      else Some (Inr num, h))"
  using assms by (subst scanDown.simps) (simp add: isPrime_empty_table)

lemma listprimes_empty_table:
  assumes "empty_table h"
  shows "listprimes num h =
     (if num \<le> 0 then Some (Inr [], h @ [[]])
      else if num \<le> 4294967295 then None
      else Some (Inl RangeError, h))"
  using assms
  by (simp add: listprimes_def getSieve_empty_table nth_alloc primesOf_def enumerate_eq_zip)

lemma getLabeledSieve_empty_table:
  assumes "empty_table h"
  shows "getLabeledSieve num h =
     (if num \<le> 0 then Some (Inr [], h @ [[]])
      else if num \<le> 4294967295 then None
      else Some (Inl RangeError, h))"
  using assms
  by (simp add: getLabeledSieve_def getSieve_empty_table nth_alloc labelled_def enumerate_eq_zip)

lemma nearestPrime_empty_table:
  assumes "empty_table h"
  shows "nearestPrime num mn mx h =
     (if num \<le> 0 then Some (Inr (pick num num (nullOut mn mx num num)), h)
      else if num \<le> 4294967295 then None
      else Some (Inl RangeError, h))"
  using assms
  by (simp add: nearestPrime_def isPrime_empty_table scanUp_empty_table scanDown_empty_table)

lemma empty_table_loaded: "empty_table loaded"
  by (simp add: empty_table_def loaded_def sieve_ref_def)

lemma empty_table_alloc: "empty_table h \<Longrightarrow> empty_table (h @ [a])"
  by (cases h) (simp_all add: empty_table_def sieve_ref_def)

text \<open>
  So the table never grows: whatever a program calls, and in whatever order, each call
  that returns leaves the table the empty array.
\<close>

lemma reachable_empty_table: "reachable h \<Longrightarrow> empty_table h"
proof (induction rule: reachable.induct)
  case load
  show ?case by (rule empty_table_loaded)
next
  case (call_getSieve h n v h')
  then show ?case
    by (auto simp: getSieve_empty_table empty_table_alloc split: if_splits)
next
  case (call_getLabeledSieve h n w h')
  then show ?case
    by (auto simp: getLabeledSieve_empty_table empty_table_alloc split: if_splits)
next
  case (call_listPrimes h n ps h')
  then show ?case
    by (auto simp: listPrimes_def listprimes_empty_table empty_table_alloc split: if_splits)
next
  case (call_nearestPrime h n mn mx p h')
  then show ?case
    by (auto simp: nearestPrime_empty_table split: if_splits)
next
  case (caller_write h r a)
  then show ?case by (simp add: empty_table_def)
qed

subsection \<open>What the functions compute from a table\<close>

text \<open>
  \<open>isPrime\<close> tests \<open>sieve.length >= num\<close> and otherwise reads index \<open>num\<close> of a slice
  of length \<open>num\<close>: for a number at or beyond the end of the table it never returns a
  boolean.
\<close>

lemma isPrime_beyond_table:
  assumes "int (length (h ! sieve_ref)) \<le> num" and "isPrime num h = Some (Inr b, h')"
  shows "b = None"
proof (cases "int (length (h ! sieve_ref)) = num")
  case True
  with assms show ?thesis by (simp add: isPrime_def get_def)
next
  case False
  with assms(1) have "0 \<le> num" and "\<not> num \<le> int (length (h ! sieve_ref))" by simp_all
  with assms(2) show ?thesis
    by (auto simp: isPrime_def getSieve_def Let_def alloc_def nth_alloc get_slice_end
        split: if_splits option.splits)
qed

text \<open>\<open>listprimes\<close> lists the indices whose entry is \<open>true\<close>, except index 0.\<close>

lemma truthyEntry_andIndex:
  "truthyEntry (map_option (\<lambda>b. andIndex b n) c) \<longleftrightarrow> c = Some True \<and> n \<noteq> 0"
  by (cases c) (auto simp: andIndex_def)

lemma indexOf_andIndex: "indexOf (Some (andIndex True n)) = n"
  by (simp add: andIndex_def)

lemma primesOf_enumerate:
  "map indexOf (filter truthyEntry
     (map (\<lambda>(index, each). map_option (\<lambda>b. andIndex b index) each) (enumerate n a)))
   = map fst (filter (\<lambda>(i, c). c = Some True \<and> i \<noteq> 0) (enumerate n a))"
  by (induction a arbitrary: n) (auto simp: truthyEntry_andIndex indexOf_andIndex)

lemma primesOf_indices:
  "primesOf a = map fst (filter (\<lambda>(i, c). c = Some True \<and> i \<noteq> 0) (enumerate 0 a))"
  by (simp add: primesOf_def primesOf_enumerate)

lemma primesOf_table20: "primesOf table20 = [2, 3, 5, 7, 11, 13, 17, 19]"
  by (simp add: primesOf_indices table20_def)

text \<open>\<open>getLabeledSieve\<close> pairs every element of the slice with its index.\<close>

lemma length_labelled: "length (labelled a) = length a"
  by (simp add: labelled_def)

lemma nth_labelled: "i < length a \<Longrightarrow> labelled a ! i = map_option (\<lambda>b. (i, b)) (a ! i)"
  by (simp add: labelled_def nth_enumerate_eq)

lemma getLabeledSieve_getSieve:
  "getLabeledSieve num h = Some (Inr xs, h') \<longleftrightarrow>
     (\<exists>r. getSieve num h = Some (Inr r, h') \<and> xs = labelled (h' ! r))"
  by (auto simp: getLabeledSieve_def split: option.splits sum.splits)

lemma exports_names:
  "''getLabeledSieve'' \<in> set exports \<and> ''isPrime'' \<notin> set exports"
  by (simp add: exports_def)

text \<open>
  When both neighbours are nonzero numbers, the last conditional (line 141) returns
  \<open>nextPrime\<close> exactly when it is strictly farther from \<open>num\<close> than \<open>prevPrime\<close>.
\<close>

lemma pick_both:
  "nextPrime \<noteq> 0 \<Longrightarrow> p \<noteq> 0 \<Longrightarrow>
   pick num nextPrime (Num p) = (if nextPrime - num > num - p then Num nextPrime else Num p)"
  by (simp add: pick_def)

text \<open>
  On the table of the primes below 20: 11 and 7 are the neighbours of 10, and the farther
  one is returned; with both bounds at 8, neither loop moves and 8 itself is returned.
\<close>

lemma nearestPrime_table20_ten:
  "nearestPrime 10 NegInfinity Infinity [table20] = Some (Inr (Num 7), [table20])"
  by code_simp

lemma nearestPrime_table20_eight:
  "nearestPrime 8 (Finite 8) (Finite 8) [table20] = Some (Inr (Num 8), [table20])"
  by code_simp

subsection \<open>Calls on heaps with the same table\<close>

text \<open>
  No function reads an array other than \<open>sieve\<close> and the slice it has just made: on two
  heaps with the same table a call does the same, and leaves the same table.
\<close>

lemma same_table_sym: "same_table h1 h2 \<Longrightarrow> same_table h2 h1"
  by (auto simp: same_table_def)

lemma getSieve_same_table:
  assumes "same_table h1 h2" and "getSieve mx h1 = Some (v, k1)"
  shows "\<exists>k2. getSieve mx h2 = Some (v, k2) \<and> same_table k1 k2
           \<and> arrayView (v, k1) = arrayView (v, k2)"
  using assms
  by (auto simp: getSieve_def same_table_def arrayView_def alloc_def Let_def sieve_ref_def
      nth_append split: if_splits option.splits)

lemma isPrime_same_table:
  assumes "same_table h1 h2" and "isPrime num h1 = Some (v, k1)"
  shows "\<exists>k2. isPrime num h2 = Some (v, k2) \<and> same_table k1 k2"
proof (cases "int (length (h1 ! sieve_ref)) \<ge> num")
  case True
  with assms show ?thesis by (auto simp: isPrime_def same_table_def)
next
  case False
  with assms obtain w where g1: "getSieve num h1 = Some (w, k1)"
    by (auto simp: isPrime_def split: option.splits sum.splits)
  from getSieve_same_table[OF assms(1) g1] obtain k2 where
    g2: "getSieve num h2 = Some (w, k2)" and st: "same_table k1 k2"
    and av: "arrayView (w, k1) = arrayView (w, k2)" by blast
  from False assms(1) have F2: "\<not> int (length (h2 ! sieve_ref)) \<ge> num"
    by (simp add: same_table_def)
  show ?thesis
    using assms(2) False F2 g1 g2 st av
    by (cases w) (auto simp: isPrime_def arrayView_def)
qed

lemma scanUp_same_table:
  assumes "scanUp mx n h1 = Some y"
  shows "\<forall>h2. same_table h1 h2 \<longrightarrow>
           (\<exists>k2. scanUp mx n h2 = Some (fst y, k2) \<and> same_table (snd y) k2)"
proof (rule scanUp.raw_induct[where P="\<lambda>mx n h1 y. \<forall>h2. same_table h1 h2 \<longrightarrow>
           (\<exists>k2. scanUp mx n h2 = Some (fst y, k2) \<and> same_table (snd y) k2)", OF _ assms])
  fix f :: "bound \<Rightarrow> int \<Rightarrow> heap \<Rightarrow> (int result \<times> heap) option"
    and mx n h1 y
  assume IH: "\<And>mx n h1 y. f mx n h1 = Some y \<Longrightarrow> \<forall>h2. same_table h1 h2 \<longrightarrow>
           (\<exists>k2. scanUp mx n h2 = Some (fst y, k2) \<and> same_table (snd y) k2)"
    and body: "(if less_bound n mx then
        (case isPrime n h1 of
           None \<Rightarrow> None
         | Some (Inl e, h') \<Rightarrow> Some (Inl e, h')
         | Some (Inr b, h') \<Rightarrow>
             if b = Some False then f mx (n + 1) h'
             else Some (Inr n, h'))
      else Some (Inr n, h1)) = Some y"
  show "\<forall>h2. same_table h1 h2 \<longrightarrow>
           (\<exists>k2. scanUp mx n h2 = Some (fst y, k2) \<and> same_table (snd y) k2)"
  proof (intro allI impI)
    fix h2 assume st: "same_table h1 h2"
    show "\<exists>k2. scanUp mx n h2 = Some (fst y, k2) \<and> same_table (snd y) k2"
    proof (cases "less_bound n mx")
      case False
      with body st show ?thesis by (subst scanUp.simps) auto
    next
      case True
      with body obtain v k1 where p1: "isPrime n h1 = Some (v, k1)"
        by (cases "isPrime n h1") auto
      from isPrime_same_table[OF st p1] obtain k2 where
        p2: "isPrime n h2 = Some (v, k2)" and st': "same_table k1 k2" by blast
      show ?thesis
      proof (cases "v = Inr (Some False)")
        case False
        with body True p1 p2 st' show ?thesis
          by (subst scanUp.simps) (cases v; auto)
      next
        case v: True
        with body True p1 have "f mx (n + 1) k1 = Some y" by simp
        from IH[OF this] st' obtain k3 where
          "scanUp mx (n + 1) k2 = Some (fst y, k3)" "same_table (snd y) k3" by blast
        with True p2 v show ?thesis by (subst scanUp.simps) auto
      qed
    qed
  qed
qed

lemma scanDown_same_table:
  assumes "scanDown mn n h1 = Some y"
  shows "\<forall>h2. same_table h1 h2 \<longrightarrow>
           (\<exists>k2. scanDown mn n h2 = Some (fst y, k2) \<and> same_table (snd y) k2)"
proof (rule scanDown.raw_induct[where P="\<lambda>mn n h1 y. \<forall>h2. same_table h1 h2 \<longrightarrow>
           (\<exists>k2. scanDown mn n h2 = Some (fst y, k2) \<and> same_table (snd y) k2)", OF _ assms])
  fix f :: "bound \<Rightarrow> int \<Rightarrow> heap \<Rightarrow> (int result \<times> heap) option"
    and mn n h1 y
  assume IH: "\<And>mn n h1 y. f mn n h1 = Some y \<Longrightarrow> \<forall>h2. same_table h1 h2 \<longrightarrow>
           (\<exists>k2. scanDown mn n h2 = Some (fst y, k2) \<and> same_table (snd y) k2)"
    and body: "(if greater_bound n mn then
        (case isPrime n h1 of
           None \<Rightarrow> None
         | Some (Inl e, h') \<Rightarrow> Some (Inl e, h')
         | Some (Inr b, h') \<Rightarrow>
             if b = Some False then f mn (n - 1) h'
             else Some (Inr n, h'))
      else Some (Inr n, h1)) = Some y"
  show "\<forall>h2. same_table h1 h2 \<longrightarrow>
           (\<exists>k2. scanDown mn n h2 = Some (fst y, k2) \<and> same_table (snd y) k2)"
  proof (intro allI impI)
    fix h2 assume st: "same_table h1 h2"
    show "\<exists>k2. scanDown mn n h2 = Some (fst y, k2) \<and> same_table (snd y) k2"
    proof (cases "greater_bound n mn")
      case False
      with body st show ?thesis by (subst scanDown.simps) auto
    next
      case True
      with body obtain v k1 where p1: "isPrime n h1 = Some (v, k1)"
        by (cases "isPrime n h1") auto
      from isPrime_same_table[OF st p1] obtain k2 where
        p2: "isPrime n h2 = Some (v, k2)" and st': "same_table k1 k2" by blast
      show ?thesis
      proof (cases "v = Inr (Some False)")
        case False
        with body True p1 p2 st' show ?thesis
          by (subst scanDown.simps) (cases v; auto)
      next
        case v: True
        with body True p1 have "f mn (n - 1) k1 = Some y" by simp
        from IH[OF this] st' obtain k3 where
          "scanDown mn (n - 1) k2 = Some (fst y, k3)" "same_table (snd y) k3" by blast
        with True p2 v show ?thesis by (subst scanDown.simps) auto
      qed
    qed
  qed
qed

lemma nearestPrime_same_table:
  assumes st: "same_table h1 h2" and run: "nearestPrime num mn mx h1 = Some (v, k1)"
  shows "\<exists>k2. nearestPrime num mn mx h2 = Some (v, k2) \<and> same_table k1 k2"
proof -
  from run obtain b a1 where p1: "isPrime num h1 = Some (b, a1)"
    by (cases "isPrime num h1") (auto simp: nearestPrime_def)
  from isPrime_same_table[OF st p1] obtain a2 where
    p2: "isPrime num h2 = Some (b, a2)" and st1: "same_table a1 a2" by blast
  show ?thesis
  proof (cases "b = Inr None \<or> b = Inr (Some False)")
    case False
    with run p1 p2 st1 show ?thesis
      by (cases b) (auto simp: nearestPrime_def)
  next
    case True
    with run p1 obtain u b1 where u1: "scanUp mx num a1 = Some (u, b1)"
      by (cases "scanUp mx num a1") (auto simp: nearestPrime_def)
    from scanUp_same_table[OF u1] st1 obtain b2 where
      u2: "scanUp mx num a2 = Some (u, b2)" and st2: "same_table b1 b2" by auto
    show ?thesis
    proof (cases u)
      case (Inl e)
      with run True p1 p2 u1 u2 st2 show ?thesis by (auto simp: nearestPrime_def)
    next
      case (Inr nextPrime)
      with run True p1 u1 obtain d c1 where d1: "scanDown mn num b1 = Some (d, c1)"
        by (cases "scanDown mn num b1") (auto simp: nearestPrime_def)
      from scanDown_same_table[OF d1] st2 obtain c2 where
        d2: "scanDown mn num b2 = Some (d, c2)" and st3: "same_table c1 c2" by auto
      with run True p1 p2 u1 u2 d1 Inr show ?thesis
        by (cases d) (auto simp: nearestPrime_def)
    qed
  qed
qed

lemma listprimes_same_table:
  assumes "same_table h1 h2" and "listprimes num h1 = Some (v, k1)"
  shows "\<exists>k2. listprimes num h2 = Some (v, k2) \<and> same_table k1 k2"
proof -
  from assms(2) obtain w where g1: "getSieve num h1 = Some (w, k1)"
    by (auto simp: listprimes_def split: option.splits sum.splits)
  from getSieve_same_table[OF assms(1) g1] assms(2) g1 show ?thesis
    by (cases w) (auto simp: listprimes_def arrayView_def)
qed

lemma getLabeledSieve_same_table:
  assumes "same_table h1 h2" and "getLabeledSieve num h1 = Some (v, k1)"
  shows "\<exists>k2. getLabeledSieve num h2 = Some (v, k2) \<and> same_table k1 k2"
proof -
  from assms(2) obtain w where g1: "getSieve num h1 = Some (w, k1)"
    by (auto simp: getLabeledSieve_def split: option.splits sum.splits)
  from getSieve_same_table[OF assms(1) g1] assms(2) g1 show ?thesis
    by (cases w) (auto simp: getLabeledSieve_def arrayView_def)
qed

lemma tableView_cong:
  assumes st: "same_table h1 h2"
    and step: "\<And>a b v k. same_table a b \<Longrightarrow> f a = Some (v, k) \<Longrightarrow>
                 \<exists>k'. f b = Some (v, k') \<and> same_table k k'"
  shows "map_option tableView (f h1) = map_option tableView (f h2)"
proof (cases "f h1")
  case None
  have "f h2 = None"
  proof (cases "f h2")
    case (Some c)
    then obtain v k where "f h2 = Some (v, k)" by (cases c) auto
    from step[OF same_table_sym[OF st] this] None show ?thesis by auto
  qed simp
  with None show ?thesis by simp
next
  case (Some c)
  then obtain v k where c: "f h1 = Some (v, k)" by (cases c) auto
  from step[OF st c] obtain k' where "f h2 = Some (v, k')" "same_table k k'" by blast
  with c show ?thesis by (simp add: tableView_def same_table_def)
qed

lemma arrayView_cong:
  assumes st: "same_table h1 h2"
  shows "map_option arrayView (getSieve mx h1) = map_option arrayView (getSieve mx h2)"
proof (cases "getSieve mx h1")
  case None
  have "getSieve mx h2 = None"
  proof (cases "getSieve mx h2")
    case (Some c)
    then obtain v k where "getSieve mx h2 = Some (v, k)" by (cases c) auto
    from getSieve_same_table[OF same_table_sym[OF st] this] None show ?thesis by auto
  qed simp
  with None show ?thesis by simp
next
  case (Some c)
  then obtain v k where c: "getSieve mx h1 = Some (v, k)" by (cases c) auto
  from getSieve_same_table[OF st c] c show ?thesis by auto
qed

lemma getSieve_ref:
  assumes "getSieve mx h = Some (Inr r, h')" and "h \<noteq> []"
  shows "r = length h \<and> length h' = Suc (length h) \<and> h' ! r = slice (h' ! sieve_ref) mx"
  using assms
  by (cases h) (auto simp: getSieve_def alloc_def Let_def sieve_ref_def nth_append
      split: if_splits option.splits)

lemma same_table_update:
  assumes "r \<noteq> sieve_ref" and "h \<noteq> []"
  shows "same_table (h[r := a]) h"
  using assms by (simp add: same_table_def)

text \<open>
  The sieve loop writes inside the table only, so the table keeps its length; after a call
  of \<open>getSieve(max)\<close> that returns, the table has at least \<open>max\<close> entries, and the
  array returned holds the first \<open>max\<close> of them.
\<close>

lemma length_put: "i < int (length a) \<Longrightarrow> length (put a i v) = length a"
  by (simp add: put_def)

lemma mark_length:
  assumes "mark len prime multiple sieve = Some y"
  shows "len \<le> int (length sieve) \<longrightarrow> length y = length sieve"
  by (rule mark.raw_induct
        [where P="\<lambda>len prime multiple sieve y. len \<le> int (length sieve) \<longrightarrow> length y = length sieve",
         OF _ assms])
     (auto simp: length_put split: if_splits)

lemma sift_length:
  assumes "sift len prime sieve = Some y"
  shows "len \<le> int (length sieve) \<longrightarrow> length y = length sieve"
  by (rule sift.raw_induct
        [where P="\<lambda>len prime sieve y. len \<le> int (length sieve) \<longrightarrow> length y = length sieve",
         OF _ assms])
     (auto split: if_splits option.splits dest: mark_length)

lemma getSieve_table_length:
  assumes "getSieve mx h = Some (Inr r, h')" and "h \<noteq> []"
  shows "mx \<le> int (length (h' ! sieve_ref))"
proof (cases "int (length (h ! sieve_ref)) \<ge> mx")
  case True
  with assms show ?thesis
    by (cases h) (auto simp: getSieve_def alloc_def Let_def sieve_ref_def)
next
  case False
  then have k: "0 < nat (mx - int (length (h ! sieve_ref)))" by simp
  from False assms obtain sieve2 where
    s: "sift mx 0 (h ! sieve_ref @ freshSieve (nat (mx - int (length (h ! sieve_ref))))) = Some sieve2"
    and h': "h' = h[sieve_ref := sieve2] @ [slice sieve2 mx]"
    by (auto simp: getSieve_def alloc_def Let_def split: if_splits option.splits)
  from sift_length[OF s] False have "int (length sieve2) = mx"
    by (simp add: freshSieve_trues[OF k])
  with h' assms(2) show ?thesis
    by (cases h) (simp_all add: sieve_ref_def)
qed

lemma getSieve_first_entries:
  assumes "getSieve mx h = Some (Inr r, h')" and "h \<noteq> []" and "0 \<le> mx"
  shows "h' ! r = take (nat mx) (h' ! sieve_ref) \<and> length (h' ! r) = nat mx"
proof -
  from getSieve_ref[OF assms(1,2)] have "h' ! r = slice (h' ! sieve_ref) mx" by blast
  with assms(3) have c: "h' ! r = take (nat mx) (h' ! sieve_ref)" by (simp add: slice_take)
  from getSieve_table_length[OF assms(1,2)] assms(3)
  have "length (take (nat mx) (h' ! sieve_ref)) = nat mx" by simp
  with c show ?thesis by simp
qed

text \<open>
  Whenever \<open>getSieve\<close> returns an array, it is one of its own (both \<open>return\<close>s, lines
  28 and 83, are a \<open>slice\<close>): whatever the caller then stores in it, the table is
  unchanged, and every later call returns what it would have returned without the
  caller's write, and leaves the same table. This holds in every heap.
\<close>

lemma getSieve_result_is_copy:
  assumes "getSieve mx h = Some (Inr r, h')" and "h \<noteq> []"
  shows "r \<noteq> sieve_ref \<and> r < length h'
       \<and> h' ! r = slice (h' ! sieve_ref) mx
       \<and> (h'[r := a]) ! sieve_ref = h' ! sieve_ref
       \<and> map_option arrayView (getSieve k (h'[r := a])) = map_option arrayView (getSieve k h')
       \<and> map_option tableView (getLabeledSieve k (h'[r := a]))
           = map_option tableView (getLabeledSieve k h')
       \<and> map_option tableView (listPrimes k (h'[r := a])) = map_option tableView (listPrimes k h')
       \<and> map_option tableView (isPrime k (h'[r := a])) = map_option tableView (isPrime k h')
       \<and> map_option tableView (nearestPrime k mn mx' (h'[r := a]))
           = map_option tableView (nearestPrime k mn mx' h')"
proof -
  from getSieve_ref[OF assms] have r: "r = length h" and l: "length h' = Suc (length h)"
    and c: "h' ! r = slice (h' ! sieve_ref) mx" by blast+
  from r assms(2) have r0: "r \<noteq> sieve_ref" by (simp add: sieve_ref_def)
  from l have ne: "h' \<noteq> []" by auto
  have st: "same_table (h'[r := a]) h'" by (rule same_table_update[OF r0 ne])
  have q1: "map_option tableView (getLabeledSieve k (h'[r := a]))
           = map_option tableView (getLabeledSieve k h')"
    by (rule tableView_cong[where f="getLabeledSieve k", OF st]) (rule getLabeledSieve_same_table)
  have q2: "map_option tableView (listPrimes k (h'[r := a]))
           = map_option tableView (listPrimes k h')"
    unfolding listPrimes_def
    by (rule tableView_cong[where f="listprimes k", OF st]) (rule listprimes_same_table)
  have q3: "map_option tableView (isPrime k (h'[r := a])) = map_option tableView (isPrime k h')"
    by (rule tableView_cong[where f="isPrime k", OF st]) (rule isPrime_same_table)
  have q4: "map_option tableView (nearestPrime k mn mx' (h'[r := a]))
           = map_option tableView (nearestPrime k mn mx' h')"
    by (rule tableView_cong[where f="nearestPrime k mn mx'", OF st])
       (rule nearestPrime_same_table)
  from r l have "r < length h'" by simp
  moreover from r0 have "(h'[r := a]) ! sieve_ref = h' ! sieve_ref" by simp
  ultimately show ?thesis
    using c r0 arrayView_cong[OF st] q1 q2 q3 q4 by blast
qed

text \<open>
  An instance on a table no run produces (the table of the primes below 4, grown to 6),
  and the one on the module as loaded, where the array returned is empty.
\<close>

lemma getSieve_result_is_copy_example:
  "getSieve 6 [table4] = Some (Inr 1, [table6, table6])
   \<and> [table4] \<noteq> []
   \<and> ([table6, table6][1 := [Some True]]) ! sieve_ref = table6
   \<and> map_option tableView (isPrime 5 ([table6, table6][1 := [Some True]]))
       = Some (Inr (Some True), table6)
   \<and> getSieve 0 loaded = Some (Inr 1, [[], []])
   \<and> loaded \<noteq> []
   \<and> ([[], []][1 := [Some True]]) ! sieve_ref = []"
proof -
  have grow: "getSieve 6 [table4] = Some (Inr 1, [table6, table6])"
    by code_simp
  have first: "getSieve 0 loaded = Some (Inr 1, [[], []])"
    by code_simp
  have ne: "[table4] \<noteq> []" "loaded \<noteq> []"
    by (simp_all add: loaded_def)
  have seen: "map_option tableView (isPrime 5 [table6, table6]) = Some (Inr (Some True), table6)"
    by code_simp
  from getSieve_result_is_copy[OF grow ne(1), where a="[Some True]" and k=5]
  have kept: "([table6, table6][1 := [Some True]]) ! sieve_ref = [table6, table6] ! sieve_ref"
    and later: "map_option tableView (isPrime 5 ([table6, table6][1 := [Some True]]))
                = map_option tableView (isPrime 5 [table6, table6])"
    by blast+
  from getSieve_result_is_copy[OF first ne(2), where a="[Some True]"]
  have kept0: "([[], []][1 := [Some True]]) ! sieve_ref = [[], []] ! sieve_ref"
    by blast
  have "[table6, table6] ! sieve_ref = table6" "[[], []] ! sieve_ref = ([] :: jsarray)"
    by (simp_all add: sieve_ref_def)
  with grow first ne seen kept later kept0 show ?thesis
    by metis
qed

text \<open>
  In a heap the module can reach, \<open>getSieve\<close> returns an array only for \<open>max \<le> 0\<close>, and
  the array is empty.
\<close>

lemma reachable_getSieve_returns:
  assumes "reachable h" and "getSieve mx h = Some (Inr r, h')"
  shows "mx \<le> 0 \<and> h' ! r = [] \<and> h' ! sieve_ref = []"
  using assms(2) reachable_empty_table[OF assms(1)]
  by (auto simp: getSieve_empty_table nth_alloc empty_table_def sieve_ref_def nth_append
      split: if_splits)

section \<open>The claims\<close>

text \<open>
  C1. Claimed: for every integer \<open>n \<ge> 0\<close>, \<open>isPrime(n)\<close> returns true exactly when \<open>n\<close> is at
  least 2 and has no divisor in \<open>[2, n)\<close>; \<open>isPrime(0)\<close> and \<open>isPrime(1)\<close> are false and
  \<open>isPrime(2)\<close> is true. In the module as loaded, \<open>isPrime(2)\<close> and \<open>isPrime(1)\<close> never
  return, and \<open>isPrime(0)\<close> returns \<open>undefined\<close>.
\<close>

theorem isPrime_loaded_small:
  "isPrime 2 loaded = None \<and> isPrime 1 loaded = None \<and> isPrime 0 loaded = Some (Inr None, loaded)"
  by (simp add: isPrime_empty_table empty_table_loaded)

text \<open>
  C2. Claimed: for bounds \<open>n1 < n2\<close>, the sequence \<open>getSieve(n1)\<close> returns is the first
  \<open>n1\<close> entries of the one \<open>getSieve(n2)\<close> returns. In the module as loaded neither
  \<open>getSieve(1)\<close> nor \<open>getSieve(2)\<close> returns a sequence: both run forever.
\<close>

theorem getSieve_loaded_growth:
  "getSieve 1 loaded = None \<and> getSieve 2 loaded = None"
  by (simp add: getSieve_empty_table empty_table_loaded)

text \<open>
  C3. Claimed: with a prime neighbour on both sides, \<open>nearestPrime\<close> returns the closer
  one, the lesser on a tie, and \<open>nearestPrime(10)\<close> is 11. In the module as loaded
  \<open>nearestPrime(10)\<close>, called with the default bounds, never returns.
\<close>

theorem nearestPrime_loaded_ten:
  "nearestPrime 10 NegInfinity Infinity loaded = None"
  by (simp add: nearestPrime_empty_table empty_table_loaded)

text \<open>
  C4. Claimed: when \<open>n\<close> is not prime and there is no prime within the bounds,
  \<open>nearestPrime\<close> returns the signal that none was found, and \<open>nearestPrime(8, 8, 8)\<close>
  does. In the module as loaded \<open>nearestPrime(8, 8, 8)\<close> never returns.
\<close>

theorem nearestPrime_loaded_eight:
  "nearestPrime 8 (Finite 8) (Finite 8) loaded = None"
  by (simp add: nearestPrime_empty_table empty_table_loaded)

text \<open>
  C5. Claimed: \<open>listPrimes(n)\<close> returns, in ascending order, the \<open>i\<close> in \<open>[0, n)\<close> whose
  table entry is true, the empty sequence when \<open>n \<le> 2\<close>, and \<open>listPrimes(20)\<close> is
  \<open>[2,3,5,7,11,13,17,19]\<close>. In the module as loaded neither \<open>listPrimes(20)\<close> nor
  \<open>listPrimes(2)\<close> returns.
\<close>

theorem listPrimes_loaded_twenty:
  "listPrimes 20 loaded = None \<and> listPrimes 2 loaded = None"
  by (simp add: listPrimes_def listprimes_empty_table empty_table_loaded)

text \<open>
  C6. Claimed: in every table state the exported functions reach, the entries at 0 and 1
  are false, and \<open>getSieve(1)\<close> returns \<open>[false]\<close>. In the module as loaded
  \<open>getSieve(1)\<close> appends the one element \<open>true\<close> and then never returns.
\<close>

theorem getSieve_loaded_one:
  "freshSieve 1 = [Some True] \<and> getSieve 1 loaded = None"
  by (simp add: freshSieve_trues getSieve_empty_table empty_table_loaded)

text \<open>
  C7. Claimed: the sequence \<open>getSieve(n)\<close> returns is an independent copy of the first
  \<open>n\<close> entries of the table, so that a caller's writes to it leave the table and later
  calls untouched. In the module as loaded \<open>getSieve(3)\<close> returns no sequence at all: it
  runs forever. The only calls that return are those with \<open>n \<le> 0\<close>, as \<open>getSieve(0)\<close>,
  and what they return is a new, empty array.
\<close>

theorem getSieve_loaded_three:
  "getSieve 3 loaded = None \<and> getSieve 0 loaded = Some (Inr 1, [[], []])"
  by (simp add: getSieve_empty_table empty_table_loaded) (simp add: loaded_def)

text \<open>
  C8. Claimed: \<open>isPrime(n)\<close> fails with an InvalidArgument error for every \<open>n < 0\<close> and
  every \<open>n\<close> that is not an integer. The code checks no argument and has no such error:
  for a negative integer, \<open>sieve.length >= num\<close> holds, and \<open>sieve[num]\<close> is
  \<open>undefined\<close>. As amended: \<open>isPrime(n)\<close> with an integer \<open>n < 0\<close> returns
  \<open>undefined\<close>, whatever the table, raises nothing and leaves the heap as it was.
\<close>

theorem isPrime_negative:
  "num < 0 \<Longrightarrow> isPrime num h = Some (Inr None, h)"
  by (simp add: isPrime_def get_def)

theorem isPrime_negative_witness:
  "(- 5 :: int) < 0 \<and> isPrime (- 5) [table20] = Some (Inr None, [table20])"
  using isPrime_negative[of "- 5" "[table20]"] by simp

text \<open>
  The claim as stated fails at \<open>isPrime(-1)\<close> in the module as loaded: the call returns
  \<open>undefined\<close>, it does not throw.
\<close>

theorem isPrime_minus_one_loaded:
  "isPrime (- 1) loaded = Some (Inr None, loaded)"
  by (simp add: isPrime_def get_def)

text \<open>
  C9. Claimed: for every \<open>n\<close> that is not prime, the call \<open>nearestPrime(n, min, max)\<close>
  returns after finitely many steps, also when \<open>max\<close> is \<open>Infinity\<close>. In the module as
  loaded \<open>nearestPrime(4)\<close>, called with the default bounds, never returns.
\<close>

theorem nearestPrime_loaded_four:
  "nearestPrime 4 NegInfinity Infinity loaded = None"
  by (simp add: nearestPrime_empty_table empty_table_loaded)

text \<open>
  C10. Claimed: the module exports \<open>getLabeledSieve\<close> and not \<open>isPrime\<close>, and for every
  \<open>n \<ge> 0\<close>, \<open>getLabeledSieve(n)\<close> returns a sequence of length \<open>n\<close> whose element \<open>i\<close>
  maps \<open>i\<close> to \<open>getSieve(n)[i]\<close>. The names are as claimed (\<open>exports_names\<close>), and the
  function labels whatever \<open>getSieve\<close> returns (\<open>getLabeledSieve_getSieve\<close>); but in the
  module as loaded \<open>getLabeledSieve(1)\<close> returns nothing, since \<open>getSieve(1)\<close> never
  returns.
\<close>

theorem getLabeledSieve_loaded_one:
  "getLabeledSieve 1 loaded = None"
  by (simp add: getLabeledSieve_empty_table empty_table_loaded)

end
